theory Spec2Isabelle
  imports Complex_Main
begin

section \<open>Arrays and failures\<close>

text \<open>
  The sources are \<^verbatim>\<open>ccmpred/weighting/__init__.py\<close> (sequence weighting) and
  \<^verbatim>\<open>ccmpred/scripts/run_ccmgen.py\<close> (the command-line driver).

  An alignment is a two-dimensional integer array: \<open>msa.shape\<close> is
  \<open>(nrow, ncol)\<close>, \<open>msa[n]\<close> is row \<open>n\<close>. A two-dimensional array is
  rectangular by construction, which \<open>wf_msa\<close> records: every row has \<open>ncol\<close>
  entries and every entry is a state code below the alphabet size \<open>A\<close>. The
  alphabet size is fixed inside the counting extension, which is not among the
  sources, so it is a parameter of every function that counts states.

  Floating-point numbers are modelled by real numbers: all quantities below are
  small integer counts and sums of reciprocals of such counts.
\<close>

record alignment =
  ncol :: nat
  rows :: "nat list list"

definition nrow :: "alignment \<Rightarrow> nat" where
  "nrow msa = length (rows msa)"

definition wf_msa :: "nat \<Rightarrow> alignment \<Rightarrow> bool" where
  "wf_msa A msa = list_all (\<lambda>r. length r = ncol msa \<and> list_all (\<lambda>a. a < A) r) (rows msa)"

text \<open>
  What can go wrong in the array operations used by the sources.
  \<open>IndexError\<close>: an index outside an axis. \<open>ValueError\<close>: \<open>np.array\<close>
  applied to rows of different lengths (an inhomogeneous shape). \<open>DivideByZero\<close>:
  a reciprocal of zero, for which NumPy stores \<open>inf\<close> in the result and emits a
  divide-by-zero warning; the model keeps it apart from every finite result.
  \<open>AttributeError\<close>: an attribute read on \<open>None\<close>.
\<close>

datatype failure = IndexError | ValueError | DivideByZero | AttributeError

text \<open>The value \<open>weights_henikoff\<close> returns: a number or a one-dimensional array.\<close>

datatype np_value = Number real | Array "real list"

fun collect :: "('e + 'a) list \<Rightarrow> 'e + 'a list" where
  "collect [] = Inr []"
| "collect (x # xs) =
     (case x of
        Inl e \<Rightarrow> Inl e
      | Inr v \<Rightarrow> (case collect xs of Inl e \<Rightarrow> Inl e | Inr vs \<Rightarrow> Inr (v # vs)))"

fun foldE :: "('a \<Rightarrow> 's \<Rightarrow> 'e + 's) \<Rightarrow> 'a list \<Rightarrow> 's \<Rightarrow> 'e + 's" where
  "foldE f [] s = Inr s"
| "foldE f (x # xs) s = (case f x s of Inl e \<Rightarrow> Inl e | Inr s' \<Rightarrow> foldE f xs s')"

section \<open>Sequence weighting\<close>

subsection \<open>Uniform and simple weights\<close>

text \<open>\<^verbatim>\<open>np.ones((msa.shape[0],), dtype="float64")\<close>\<close>

definition weights_uniform :: "alignment \<Rightarrow> real list" where
  "weights_uniform msa = replicate (nrow msa) 1"

text \<open>
  \<open>calculate_weights_simple\<close> is a compiled extension that is not among the
  sources; it is the parameter \<open>cws\<close>. The default \<open>cutoff = 0.8\<close> and
  \<open>count_gaps = False\<close> are supplied by the caller.
\<close>

definition weights_simple ::
  "(alignment \<Rightarrow> real \<Rightarrow> bool \<Rightarrow> real list) \<Rightarrow> alignment \<Rightarrow> real \<Rightarrow> bool \<Rightarrow> real list" where
  "weights_simple cws msa cutoff count_gaps =
     (if cutoff \<ge> 1 then weights_uniform msa else cws msa cutoff count_gaps)"

subsection \<open>Henikoff weights\<close>

text \<open>
  Modelled from the spec: \<open>ccmpred.counts.single_counts\<close> is not among the sources.
  The spec says: for each column \<open>l\<close>, count occurrences of each alphabet state.
  The result has one row per column and one entry per state; the counts are floats.
\<close>

definition single_counts :: "nat \<Rightarrow> alignment \<Rightarrow> real list list" where
  "single_counts A msa =
     map (\<lambda>l. map (\<lambda>a. real (length (filter (\<lambda>r. r ! l = a) (rows msa)))) [0..<A])
       [0..<ncol msa]"

text \<open>\<^verbatim>\<open>single_counts[:,0] = 0\<close>: index 0 must exist on the state axis.\<close>

definition zero_gap_counts :: "nat \<Rightarrow> real list list \<Rightarrow> failure + real list list" where
  "zero_gap_counts A sc =
     (if A = 0 then Inl IndexError else Inr (map (\<lambda>counts. counts[0 := 0]) sc))"

text \<open>\<^verbatim>\<open>(single_counts != 0).sum(1)\<close>\<close>

definition count_nonzero :: "real list \<Rightarrow> nat" where
  "count_nonzero xs = length (filter (\<lambda>c. c \<noteq> 0) xs)"

text \<open>
  \<^verbatim>\<open>single_counts[range(ncol), msa[n]] * unique_aa\<close>: entry \<open>l\<close> is
  \<open>single_counts[l, msa[n][l]] * unique_aa[l]\<close>; a state code outside the state
  axis is an \<open>IndexError\<close>.
\<close>

definition cNi_row :: "nat \<Rightarrow> nat \<Rightarrow> real list list \<Rightarrow> nat list \<Rightarrow> nat list \<Rightarrow> failure + real list" where
  "cNi_row A L sc unique_aa r =
     (if list_all (\<lambda>l. r ! l < A) [0..<L]
      then Inr (map (\<lambda>l. sc ! l ! (r ! l) * real (unique_aa ! l)) [0..<L])
      else Inl IndexError)"

text \<open>\<^verbatim>\<open>np.where(x == 0)\<close>: the positions of the zero entries, ascending.\<close>

definition np_where_zero :: "real list \<Rightarrow> nat list" where
  "np_where_zero xs = filter (\<lambda>i. xs ! i = 0) [0..<length xs]"

text \<open>\<^verbatim>\<open>np.delete(x, idx)\<close>: the entries whose position is not in \<open>idx\<close>, in order.\<close>

definition np_delete :: "real list \<Rightarrow> nat list \<Rightarrow> real list" where
  "np_delete xs idx = map (\<lambda>i. xs ! i) (filter (\<lambda>i. i \<notin> set idx) [0..<length xs])"

text \<open>
  \<^verbatim>\<open>np.array(list_of_rows)\<close>: a two-dimensional array when the rows have one
  length, and a \<open>ValueError\<close> (inhomogeneous shape) otherwise. NumPy before 1.24
  builds an array of row objects instead, which then fails in \<open>sum\<close> when two rows
  of lengths other than 1 differ in length; the model follows current NumPy.
\<close>

definition np_array2 :: "real list list \<Rightarrow> failure + real list list" where
  "np_array2 rs =
     (case rs of
        [] \<Rightarrow> Inr []
      | r # rest \<Rightarrow> if list_all (\<lambda>r'. length r' = length r) rest then Inr rs else Inl ValueError)"

text \<open>\<^verbatim>\<open>1/x\<close>, entry by entry.\<close>

definition np_recip :: "real \<Rightarrow> failure + real" where
  "np_recip x = (if x = 0 then Inl DivideByZero else Inr (1 / x))"

definition np_recip2 :: "real list list \<Rightarrow> failure + real list list" where
  "np_recip2 rs = collect (map (\<lambda>r. collect (map np_recip r)) rs)"

text \<open>
  Python's builtin \<open>sum\<close> over a two-dimensional array: it starts from the
  integer 0 and adds the rows of the array to it one after the other, so the
  result has one entry per column of the array.
\<close>

fun np_add :: "np_value \<Rightarrow> real list \<Rightarrow> np_value" where
  "np_add (Number s) r = Array (map (\<lambda>x. s + x) r)"
| "np_add (Array v) r = Array (map (\<lambda>(x, y). x + y) (zip v r))"

definition py_sum :: "real list list \<Rightarrow> np_value" where
  "py_sum rs = fold (\<lambda>r acc. np_add acc r) rs (Number 0)"

definition weights_henikoff :: "nat \<Rightarrow> alignment \<Rightarrow> bool \<Rightarrow> failure + np_value" where
  "weights_henikoff A msa count_gaps =
     (case (if \<not> count_gaps then zero_gap_counts A (single_counts A msa)
            else Inr (single_counts A msa)) of
        Inl e \<Rightarrow> Inl e
      | Inr sc \<Rightarrow>
          (let unique_aa = map count_nonzero sc in
           case collect (map (\<lambda>n. cNi_row A (ncol msa) sc unique_aa (rows msa ! n)) [0..<nrow msa]) of
             Inl e \<Rightarrow> Inl e
           | Inr cNi \<Rightarrow>
               (case np_array2 (map (\<lambda>n. np_delete (cNi ! n) (np_where_zero (cNi ! n))) [0..<nrow msa]) of
                  Inl e \<Rightarrow> Inl e
                | Inr cNi_nogaps \<Rightarrow>
                    (case np_recip2 cNi_nogaps of
                       Inl e \<Rightarrow> Inl e
                     | Inr recips \<Rightarrow> Inr (py_sum recips)))))"

text \<open>
  Modelled from the spec: \<open>ccmpred.counts.pair_counts\<close> is not among the sources.
  The spec speaks of pairwise state-occurrence counts: entry \<open>[k, l, a, b]\<close> is the
  number of rows with state \<open>a\<close> in column \<open>k\<close> and state \<open>b\<close> in column \<open>l\<close>.
\<close>

definition pair_counts :: "nat \<Rightarrow> alignment \<Rightarrow> real list list list list" where
  "pair_counts A msa =
     map (\<lambda>k. map (\<lambda>l. map (\<lambda>a. map (\<lambda>b.
            real (length (filter (\<lambda>r. r ! k = a \<and> r ! l = b) (rows msa))))
          [0..<A]) [0..<A]) [0..<ncol msa]) [0..<ncol msa]"

text \<open>\<^verbatim>\<open>(pair_counts != 0).sum(3).sum(2)\<close>\<close>

definition pair_unique_aa :: "real list list list list \<Rightarrow> nat list list" where
  "pair_unique_aa pc = map (map (\<lambda>m. sum_list (map count_nonzero m))) pc"

text \<open>
  \<^verbatim>\<open>1/(pair_counts[k,l, msa[n][k],msa[n][l]] * unique_aa[k,l])\<close> for the row
  \<open>r = msa[n]\<close>.
\<close>

definition pair_term ::
  "nat \<Rightarrow> real list list list list \<Rightarrow> nat list list \<Rightarrow> nat list \<Rightarrow> nat \<Rightarrow> nat \<Rightarrow> failure + real" where
  "pair_term A pc unique_aa r k l =
     (if r ! k < A \<and> r ! l < A
      then np_recip (pc ! k ! l ! (r ! k) ! (r ! l) * real (unique_aa ! k ! l))
      else Inl IndexError)"

text \<open>\<^verbatim>\<open>henikoff[n] += t\<close>\<close>

definition add_at :: "nat \<Rightarrow> real \<Rightarrow> real list \<Rightarrow> real list" where
  "add_at n t henikoff = henikoff[n := henikoff ! n + t]"

text \<open>
  The three nested loops: \<open>n\<close> over \<open>range(nrow)\<close>, \<open>k\<close> over \<open>range(ncol-1)\<close>
  and \<open>l\<close> over \<open>range(k+1,ncol)\<close>; the state is the vector \<open>henikoff\<close>, which
  starts as \<open>np.zeros(nrow)\<close>.
\<close>

definition weights_henikoff_pair :: "nat \<Rightarrow> alignment \<Rightarrow> failure + real list" where
  "weights_henikoff_pair A msa =
     (let pc = pair_counts A msa;
          unique_aa = pair_unique_aa pc
      in foldE (\<lambda>n. foldE (\<lambda>k. foldE (\<lambda>l henikoff.
                 case pair_term A pc unique_aa (rows msa ! n) k l of
                   Inl e \<Rightarrow> Inl e
                 | Inr t \<Rightarrow> Inr (add_at n t henikoff))
               [k + 1..<ncol msa]) [0..<ncol msa - 1])
           [0..<nrow msa] (replicate (nrow msa) 0))"

text \<open>
  The weight of row \<open>n\<close> in the words of the specification: the sum, over the column pairs
  \<open>k < l\<close>, of the reciprocal of the number of rows that show the state pair of
  row \<open>n\<close> at \<open>(k, l)\<close> times the number of distinct state pairs seen at \<open>(k, l)\<close>.
\<close>

definition pair_occurrences :: "alignment \<Rightarrow> nat \<Rightarrow> nat \<Rightarrow> nat \<Rightarrow> nat \<Rightarrow> nat" where
  "pair_occurrences msa k l a b =
     card {n \<in> {0..<nrow msa}. rows msa ! n ! k = a \<and> rows msa ! n ! l = b}"

definition distinct_pairs :: "alignment \<Rightarrow> nat \<Rightarrow> nat \<Rightarrow> nat" where
  "distinct_pairs msa k l = card ((\<lambda>r. (r ! k, r ! l)) ` set (rows msa))"

definition column_pairs :: "nat \<Rightarrow> (nat \<times> nat) set" where
  "column_pairs L = {(k, l) \<in> {0..<L} \<times> {0..<L}. k < l}"

definition henikoff_pair_weight :: "alignment \<Rightarrow> nat \<Rightarrow> real" where
  "henikoff_pair_weight msa n =
     (\<Sum>(k, l) \<in> column_pairs (ncol msa).
         1 / (real (pair_occurrences msa k l (rows msa ! n ! k) (rows msa ! n ! l)) *
              real (distinct_pairs msa k l)))"

text \<open>
  The example from the Henikoff paper that the comment in \<open>weights_henikoff\<close>
  spells out: \<^verbatim>\<open>msa=np.array([[0,1,3,0,6],[0,2,4,0,2],[0,1,4,0,2],[0,1,5,0,0]])\<close>.
\<close>

definition henikoff_example :: alignment where
  "henikoff_example =
     \<lparr>ncol = 5, rows = [[0, 1, 3, 0, 6], [0, 2, 4, 0, 2], [0, 1, 4, 0, 2], [0, 1, 5, 0, 0]]\<rparr>"

section \<open>The driver \<open>run_ccmgen\<close>\<close>

subsection \<open>Options and their validation\<close>

text \<open>
  The namespace that \<open>parser.parse_args()\<close> returns. \<open>tree_file\<close>,
  \<open>tree_source\<close> and \<open>pdbfile\<close> are \<open>None\<close> unless given; \<open>tree_source\<close> is
  the constant \<open>binary\<close> or \<open>star\<close>. The parser puts \<open>--mutation-rate\<close> and
  \<open>--mutation-rate-neff\<close> in one mutually exclusive group, and the three
  \<open>--tree-*\<close> options in another.
\<close>

record options =
  rawfile :: string
  alnfile :: string
  outalnfile :: string
  tree_file :: "string option"
  tree_source :: "string option"
  mutation_rate :: real
  mutation_rate_neff :: bool
  burn_in :: int
  nseq :: int
  mcmc :: bool
  mcmc_sample_type :: string
  mcmc_burn_in :: int
  mcmc_nseq :: int
  pdbfile :: "string option"
  contact_threshold :: int
  max_gap_pos :: int
  max_gap_seq :: int
  aln_format :: string
  num_threads :: int

text \<open>The defaults of \<open>add_argument\<close>, for the three positional file names given.\<close>

definition default_options :: "string \<Rightarrow> string \<Rightarrow> string \<Rightarrow> options" where
  "default_options raw aln out =
     \<lparr>rawfile = raw, alnfile = aln, outalnfile = out,
      tree_file = None, tree_source = None,
      mutation_rate = 0, mutation_rate_neff = False, burn_in = 500, nseq = 0,
      mcmc = False, mcmc_sample_type = ''original'', mcmc_burn_in = 500, mcmc_nseq = 10000,
      pdbfile = None, contact_threshold = 8,
      max_gap_pos = 100, max_gap_seq = 100, aln_format = ''fasta'', num_threads = 1\<rparr>"

text \<open>Python's truth value of an optional string: \<open>None\<close> and the empty string are false.\<close>

definition truthy_str :: "string option \<Rightarrow> bool" where
  "truthy_str s = (case s of None \<Rightarrow> False | Some v \<Rightarrow> v \<noteq> [])"

text \<open>Python's truth value of a float: zero is false.\<close>

definition truthy_float :: "real \<Rightarrow> bool" where
  "truthy_float x = (x \<noteq> 0)"

text \<open>
  The two checks of \<open>parse_args\<close> on the parsed namespace. \<open>parser.error(msg)\<close>
  prints the message and exits the process: it is the result \<open>Inl msg\<close>.
\<close>

definition parse_args :: "options \<Rightarrow> string + options" where
  "parse_args opt =
     (if \<not> mcmc opt \<and> \<not> truthy_str (tree_source opt) \<and> \<not> truthy_str (tree_file opt)
      then Inl ''Need one of the --tree-* options or --mcmc-sampling!''
      else if (truthy_str (tree_source opt) \<or> truthy_str (tree_file opt)) \<and>
              (\<not> truthy_float (mutation_rate opt) \<and> \<not> mutation_rate_neff opt)
      then Inl ''Need one of the --mutation-rate* options!''
      else Inr opt)"

subsection \<open>Zeroing the couplings of non-contacts\<close>

text \<open>
  \<open>ccm.x_pair\<close> is a four-dimensional array of shape \<open>(L, L, A, A)\<close>.
  \<open>ccm.non_contact_indices\<close> is a pair of index arrays, set by \<open>read_pdb\<close>,
  which is not among the sources.
\<close>

type_synonym tensor = "real list list list list"

definition wf_tensor :: "nat \<Rightarrow> nat \<Rightarrow> tensor \<Rightarrow> bool" where
  "wf_tensor L A x =
     (length x = L \<and>
      list_all (\<lambda>xi. length xi = L \<and>
        list_all (\<lambda>xij. length xij = A \<and> list_all (\<lambda>xija. length xija = A) xij) xi) x)"

text \<open>
  Two index arrays used together select the positions \<open>(idx0[t], idx1[t])\<close>; an
  index array of length 1 is broadcast against the other one, and two arrays of
  other, different lengths are an \<open>IndexError\<close>.
\<close>

definition index_pairs :: "nat list \<times> nat list \<Rightarrow> failure + (nat \<times> nat) list" where
  "index_pairs idx =
     (case idx of (idx0, idx1) \<Rightarrow>
        if length idx0 = length idx1 then Inr (zip idx0 idx1)
        else if length idx0 = 1 then Inr (map (\<lambda>j. (hd idx0, j)) idx1)
        else if length idx1 = 1 then Inr (map (\<lambda>i. (i, hd idx1)) idx0)
        else Inl IndexError)"

text \<open>\<^verbatim>\<open>x_pair[i, j, :, :] = 0\<close> for one position \<open>(i, j)\<close>.\<close>

definition zero_block :: "nat \<times> nat \<Rightarrow> tensor \<Rightarrow> tensor" where
  "zero_block p x =
     (case p of (i, j) \<Rightarrow> x[i := (x ! i)[j := map (map (\<lambda>v. 0)) (x ! i ! j)]])"

text \<open>
  \<^verbatim>\<open>ccm.x_pair[ccm.non_contact_indices[0], ccm.non_contact_indices[1], :, :] = 0\<close>;
  an index outside the first or the second axis is an \<open>IndexError\<close>.
\<close>

definition zero_non_contacts :: "tensor \<Rightarrow> nat list \<times> nat list \<Rightarrow> failure + tensor" where
  "zero_non_contacts x_pair non_contact_indices =
     (case index_pairs non_contact_indices of
        Inl e \<Rightarrow> Inl e
      | Inr ps \<Rightarrow>
          if list_all (\<lambda>(i, j). i < length x_pair \<and> j < length (x_pair ! i)) ps
          then Inr (fold zero_block ps x_pair)
          else Inl IndexError)"

text \<open>
  Modelled from the spec: \<open>read_pdb\<close>, which computes \<open>non_contact_indices\<close>, is not
  among the sources. The spec says: the contact mask is a boolean L by L matrix,
  and the couplings of the non-contact pairs are forced to zero. The index arrays
  list the positions where the mask is false, row by row.
\<close>

definition non_contacts :: "bool list list \<Rightarrow> nat list \<times> nat list" where
  "non_contacts contact =
     (let ps = concat (map (\<lambda>i. map (\<lambda>j. (i, j)) (filter (\<lambda>j. \<not> contact ! i ! j) [0..<length (contact ! i)]))
                        [0..<length contact])
      in (map fst ps, map snd ps))"

definition wf_mask :: "nat \<Rightarrow> bool list list \<Rightarrow> bool" where
  "wf_mask L contact = (length contact = L \<and> list_all (\<lambda>r. length r = L) contact)"

definition symmetric_mask :: "nat \<Rightarrow> bool list list \<Rightarrow> bool" where
  "symmetric_mask L contact = (\<forall>i \<in> {0..<L}. \<forall>j \<in> {0..<L}. contact ! i ! j = contact ! j ! i)"

text \<open>
  Modelled from the spec: the structure parser and the distance map that
  \<open>read_pdb\<close> thresholds are not among the sources. The spec speaks of
  contact-distance thresholding; the help of \<open>--contact-threshold\<close> defines a
  contact by the distance of the Cbeta atoms of a residue pair, and \<open>main\<close> prints
  that the couplings of the pairs with Cbeta distances above the threshold are
  set to zero. A structure is the list of the Cbeta positions of its \<open>L\<close>
  residues; a pair is a contact unless its distance is above the threshold.
\<close>

type_synonym point = "real \<times> real \<times> real"

definition cbeta_distance :: "point \<Rightarrow> point \<Rightarrow> real" where
  "cbeta_distance p q =
     (case p of (x1, y1, z1) \<Rightarrow> case q of (x2, y2, z2) \<Rightarrow>
        sqrt ((x1 - x2)\<^sup>2 + (y1 - y2)\<^sup>2 + (z1 - z2)\<^sup>2))"

definition distance_map :: "point list \<Rightarrow> real list list" where
  "distance_map residues = map (\<lambda>p. map (\<lambda>q. cbeta_distance p q) residues) residues"

definition contact_mask :: "real list list \<Rightarrow> int \<Rightarrow> bool list list" where
  "contact_mask distances threshold =
     map (map (\<lambda>d. \<not> d > real_of_int threshold)) distances"

text \<open>The invariant of the coupling tensor: \<open>pair[i,j,a,b] == pair[j,i,b,a]\<close>.\<close>

definition symmetric_pair :: "nat \<Rightarrow> nat \<Rightarrow> tensor \<Rightarrow> bool" where
  "symmetric_pair L A x =
     (\<forall>i \<in> {0..<L}. \<forall>j \<in> {0..<L}. \<forall>a \<in> {0..<A}. \<forall>b \<in> {0..<A}.
        x ! i ! j ! a ! b = x ! j ! i ! b ! a)"

text \<open>Zero self-coupling: \<open>pair[i,i,a,b] == 0\<close>.\<close>

definition zero_self_coupling :: "nat \<Rightarrow> nat \<Rightarrow> tensor \<Rightarrow> bool" where
  "zero_self_coupling L A x =
     (\<forall>i \<in> {0..<L}. \<forall>a \<in> {0..<A}. \<forall>b \<in> {0..<A}. x ! i ! i ! a ! b = 0)"

subsection \<open>Sampling and writing\<close>

text \<open>
  The three samplers \<open>main\<close> can call, with the arguments taken from the
  options: \<open>sample_to_neff_increasingly(..., burn_in)\<close>,
  \<open>sample_with_mutation_rate(..., burn_in, mutation_rate)\<close> and
  \<open>generate_mcmc_sample(..., size, burn_in, sample_type)\<close>.
\<close>

datatype sampler_call =
    SampleToNeffIncreasingly int
  | SampleWithMutationRate int real
  | GenerateMcmcSample int int string

text \<open>
  The \<open>if\<close>/\<open>elif\<close>/\<open>else\<close> that starts the sampling; \<open>tree\<close> is the tree object,
  and \<open>None\<close> when there is none.
\<close>

definition sampler_choice :: "'t option \<Rightarrow> options \<Rightarrow> sampler_call" where
  "sampler_choice tree opt =
     (if tree \<noteq> None \<and> mutation_rate_neff opt
      then SampleToNeffIncreasingly (burn_in opt)
      else if tree \<noteq> None \<and> mutation_rate opt > 0
      then SampleWithMutationRate (burn_in opt) (mutation_rate opt)
      else GenerateMcmcSample (mcmc_nseq opt) (mcmc_burn_in opt) (mcmc_sample_type opt))"

text \<open>
  The modules \<open>ccmpred\<close> (class \<open>CCMpred\<close>), \<open>ccmpred.trees\<close>, \<open>ccmpred.sampling\<close>,
  \<open>ccmpred.gaps\<close> and \<open>ccmpred.io.alignment\<close> are not among the sources. What
  \<open>main\<close> reads from them is a parameter: the number of rows \<open>ccm.N\<close> of the
  alignment read, \<open>ccm.max_gap_pos\<close>, the couplings \<open>ccm.x_pair\<close> loaded by
  \<open>intialise_potentials\<close>, the index arrays set by \<open>read_pdb\<close>, the tree that
  \<open>specify_tree(nseq, tree_file, tree_source)\<close> builds with its attribute
  \<open>ids\<close>, the alignment each sampler returns, and the alignment with the gapped
  columns inserted back.
\<close>

type_synonym matrix = "nat list list"

record 't collaborators =
  ccm_N :: nat
  ccm_max_gap_pos :: int
  ccm_x_pair :: tensor
  ccm_non_contact_indices :: "nat list \<times> nat list"
  specify_tree :: "int \<Rightarrow> string option \<Rightarrow> string option \<Rightarrow> 't"
  tree_ids :: "'t \<Rightarrow> string list"
  sample_to_neff_increasingly :: "'t \<Rightarrow> tensor \<Rightarrow> int \<Rightarrow> matrix"
  sample_with_mutation_rate :: "'t \<Rightarrow> tensor \<Rightarrow> int \<Rightarrow> real \<Rightarrow> matrix"
  generate_mcmc_sample :: "tensor \<Rightarrow> int \<Rightarrow> int \<Rightarrow> string \<Rightarrow> matrix"
  backinsert_gapped_positions_aln :: "matrix \<Rightarrow> matrix"

text \<open>The call that \<open>sampler_choice\<close> selects, made; the result is \<open>msa_sampled\<close>.\<close>

definition run_sampler :: "'t collaborators \<Rightarrow> 't option \<Rightarrow> tensor \<Rightarrow> sampler_call \<Rightarrow> matrix" where
  "run_sampler env tree x_pair call =
     (case call of
        SampleToNeffIncreasingly b \<Rightarrow> sample_to_neff_increasingly env (the tree) x_pair b
      | SampleWithMutationRate b r \<Rightarrow> sample_with_mutation_rate env (the tree) x_pair b r
      | GenerateMcmcSample sz b ty \<Rightarrow> generate_mcmc_sample env x_pair sz b ty)"

text \<open>What the run does, in order.\<close>

datatype event =
    Exit string
  | Logo
  | SetNumThreads int
  | ReadAlignment string int int
  | InitialisePotentials
  | ReadPdb int
  | Raise failure
  | SpecifyTree int "string option" "string option"
  | Sample sampler_call
  | BackinsertGappedPositions
  | WriteMsa matrix "string list" "string list"

text \<open>\<^verbatim>\<open>"seq {0}".format(i)\<close> needs the decimal digits of \<open>i\<close>.\<close>

fun string_of_nat :: "nat \<Rightarrow> string" where
  "string_of_nat n =
     (if n < 10 then [''0123456789'' ! n]
      else string_of_nat (n div 10) @ [''0123456789'' ! (n mod 10)])"

text \<open>
  The last block of \<open>main\<close>: the descriptions, the identifiers \<open>ids\<close>, and the
  call \<open>write_msa(f, msa_sampled, tree.ids, ..., descriptions=descs)\<close>, whose
  alignment, identifiers and descriptions the event \<open>WriteMsa\<close> records. The
  variable \<open>ids\<close> is computed and not used by the call.
\<close>

definition write_alignment :: "'t collaborators \<Rightarrow> 't option \<Rightarrow> matrix \<Rightarrow> event" where
  "write_alignment env tree msa_sampled =
     (let descs = replicate (length msa_sampled) ''synthetic sequence generated with CCMgen'';
          ids = (if tree \<noteq> None then tree_ids env (the tree)
                 else map (\<lambda>i. ''seq '' @ string_of_nat i) [0..<length msa_sampled])
      in case tree of
           None \<Rightarrow> Raise AttributeError
         | Some t \<Rightarrow> WriteMsa msa_sampled (tree_ids env t) descs)"

text \<open>
  \<open>main\<close>, as the list of what it does. A configuration error ends the run in
  \<open>parse_args\<close>, before anything else. The tree is the object \<open>CCMTree()\<close>, never
  \<open>None\<close>.
\<close>

definition main :: "'t collaborators \<Rightarrow> options \<Rightarrow> event list" where
  "main env args =
     (case parse_args args of
        Inl msg \<Rightarrow> [Exit msg]
      | Inr opt \<Rightarrow>
          [Logo, SetNumThreads (num_threads opt),
           ReadAlignment (aln_format opt) (max_gap_pos opt) (max_gap_seq opt),
           InitialisePotentials] @
          (case (if truthy_str (pdbfile opt)
                 then zero_non_contacts (ccm_x_pair env) (ccm_non_contact_indices env)
                 else Inr (ccm_x_pair env)) of
             Inl e \<Rightarrow> [ReadPdb (contact_threshold opt), Raise e]
           | Inr x_pair \<Rightarrow>
               (let nseq' = (if nseq opt = 0 then int (ccm_N env) else nseq opt);
                    tree = Some (specify_tree env nseq' (tree_file opt) (tree_source opt));
                    call = sampler_choice tree opt;
                    msa_sampled = run_sampler env tree x_pair call
                in (if truthy_str (pdbfile opt) then [ReadPdb (contact_threshold opt)] else []) @
                   [SpecifyTree nseq' (tree_file opt) (tree_source opt), Sample call] @
                   (if ccm_max_gap_pos env < 100
                    then [BackinsertGappedPositions,
                          write_alignment env tree (backinsert_gapped_positions_aln env msa_sampled)]
                    else [write_alignment env tree msa_sampled]))))"

text \<open>
  Modelled from the spec: collaborators that keep the spec's contracts, for an
  input alignment of \<open>N\<close> rows and \<open>L\<close> columns. A tree has one leaf per requested
  sequence, each leaf with an identifier of its own; the tree samplers return one
  row per leaf; the MCMC sampler returns an alignment of shape size by \<open>L\<close>.
\<close>

definition spec_collaborators :: "nat \<Rightarrow> nat \<Rightarrow> tensor \<Rightarrow> (string list) collaborators" where
  "spec_collaborators N L x =
     \<lparr>ccm_N = N, ccm_max_gap_pos = 100, ccm_x_pair = x, ccm_non_contact_indices = ([], []),
      specify_tree = (\<lambda>n tf ts. map string_of_nat [0..<nat n]),
      tree_ids = (\<lambda>t. t),
      sample_to_neff_increasingly = (\<lambda>t x b. replicate (length t) (replicate L 0)),
      sample_with_mutation_rate = (\<lambda>t x b r. replicate (length t) (replicate L 0)),
      generate_mcmc_sample = (\<lambda>x sz b ty. replicate (nat sz) (replicate L 0)),
      backinsert_gapped_positions_aln = (\<lambda>m. m)\<rparr>"

subsection \<open>Configurations\<close>

text \<open>
  A tree is specified when \<open>opt.tree_source or opt.tree_file\<close> holds, the test that
  \<open>parse_args\<close> makes: a tree source was chosen, or a non-empty tree file name was
  given.
\<close>

definition tree_specified :: "options \<Rightarrow> bool" where
  "tree_specified opt = (truthy_str (tree_source opt) \<or> truthy_str (tree_file opt))"

text \<open>\<^verbatim>\<open>run_ccmgen.py raw aln out --tree-star\<close>\<close>

definition star_without_rate :: options where
  "star_without_rate = (default_options ''raw'' ''aln'' ''out'')\<lparr>tree_source := Some ''star''\<rparr>"

text \<open>\<^verbatim>\<open>run_ccmgen.py raw aln out --tree-star --mutation-rate -1\<close>\<close>

definition star_negative_rate :: options where
  "star_negative_rate =
     (default_options ''raw'' ''aln'' ''out'')\<lparr>tree_source := Some ''star'', mutation_rate := - 1\<rparr>"

text \<open>\<^verbatim>\<open>run_ccmgen.py raw aln out --tree-binary --mutation-rate -1 --mcmc-nseq 5\<close>\<close>

definition binary_negative_rate_nseq5 :: options where
  "binary_negative_rate_nseq5 =
     (default_options ''raw'' ''aln'' ''out'')
       \<lparr>tree_source := Some ''binary'', mutation_rate := - 1, mcmc_nseq := 5\<rparr>"

text \<open>
  A symmetric coupling tensor with zero self-coupling, for two columns and one
  state, and a structure of two residues whose Cbeta atoms are 10 angstrom
  apart.
\<close>

definition couplings_2x2 :: tensor where
  "couplings_2x2 = [[[[0]], [[1]]], [[[1]], [[0]]]]"

definition two_residues :: "(real \<times> real \<times> real) list" where
  "two_residues = [(0, 0, 0), (10, 0, 0)]"

section \<open>Properties of the weights\<close>

lemma length_weights_uniform: "length (weights_uniform msa) = nrow msa"
  by (simp add: weights_uniform_def)

text \<open>
  Claim C9. For every alignment with \<open>N\<close> rows, \<open>weights_uniform\<close> returns a vector
  of length \<open>N\<close> whose every entry is 1.0, whatever the alignment contains.
\<close>

theorem weights_uniform_ones:
  "length (weights_uniform msa) = nrow msa \<and>
   (\<forall>n < nrow msa. weights_uniform msa ! n = 1) \<and>
   weights_uniform msa = weights_uniform (msa\<lparr>rows := map (map f) (rows msa)\<rparr>)"
  by (simp add: weights_uniform_def nrow_def)

theorem weights_uniform_ones_witness:
  "length (weights_uniform \<lparr>ncol = 2, rows = [[0, 1], [3, 1], [2, 2]]\<rparr>) = 3 \<and>
   weights_uniform \<lparr>ncol = 2, rows = [[0, 1], [3, 1], [2, 2]]\<rparr> ! 2 = 1"
  using weights_uniform_ones [of "\<lparr>ncol = 2, rows = [[0, 1], [3, 1], [2, 2]]\<rparr>" id]
  by (simp add: nrow_def)

text \<open>
  Claim C3. For every alignment, every \<open>count_gaps\<close> flag and every cutoff of at
  least 1, \<open>weights_simple\<close> returns the vector of \<open>weights_uniform\<close>; the result does
  not depend on the pairwise identity computation \<open>cws\<close>, which is not called.
\<close>

theorem weights_simple_cutoff_uniform:
  "1 \<le> cutoff \<Longrightarrow> weights_simple cws msa cutoff count_gaps = weights_uniform msa"
  by (simp add: weights_simple_def)

theorem weights_simple_cutoff_uniform_witness:
  "(1::real) \<le> 1 \<and>
   weights_simple (\<lambda>m c g. []) \<lparr>ncol = 1, rows = [[0], [4]]\<rparr> 1 True = [1, 1]"
  using weights_simple_cutoff_uniform
    [of 1 "\<lambda>m c g. []" "\<lparr>ncol = 1, rows = [[0], [4]]\<rparr>" True]
  by (simp add: weights_uniform_def nrow_def)

subsection \<open>The loops of the pair weights\<close>

lemma add_at_length [simp]: "length (add_at n t h) = length h"
  by (simp add: add_at_def)

lemma add_at_add: "n < length h \<Longrightarrow> add_at n t2 (add_at n t1 h) = add_at n (t1 + t2) h"
  by (simp add: add_at_def add.assoc)

lemma add_at_zero: "n < length h \<Longrightarrow> add_at n 0 h = h"
  by (simp add: add_at_def)

lemma foldE_inner:
  assumes "\<And>l. l \<in> set ls \<Longrightarrow> term l = Inr (t l)" and "n < length h"
  shows "foldE (\<lambda>l henikoff. case term l of Inl e \<Rightarrow> Inl e | Inr t \<Rightarrow> Inr (add_at n t henikoff)) ls h
         = Inr (add_at n (sum_list (map t ls)) h)"
  using assms
proof (induction ls arbitrary: h)
  case Nil
  then show ?case by (simp add: add_at_zero)
next
  case (Cons l ls)
  have "term l = Inr (t l)" using Cons.prems(1) by simp
  moreover have "n < length (add_at n (t l) h)" using Cons.prems(2) by simp
  ultimately show ?case
    using Cons.IH [of "add_at n (t l) h"] Cons.prems by (simp add: add_at_add)
qed


lemma foldE_add_at:
  assumes "\<And>k h. k \<in> set ks \<Longrightarrow> n < length h \<Longrightarrow> f k h = Inr (add_at n (g k) h)" and "n < length h"
  shows "foldE f ks h = Inr (add_at n (sum_list (map g ks)) h)"
  using assms
proof (induction ks arbitrary: h)
  case Nil
  then show ?case by (simp add: add_at_zero)
next
  case (Cons k ks)
  have "f k h = Inr (add_at n (g k) h)" using Cons.prems by simp
  then show ?case
    using Cons.IH [of "add_at n (g k) h"] Cons.prems by (simp add: add_at_add)
qed

lemma foldE_rows:
  assumes "\<And>n h. n \<in> set ns \<Longrightarrow> length h = N \<Longrightarrow> f n h = Inr (add_at n (g n) h)"
    and "distinct ns" and "\<And>n. n \<in> set ns \<Longrightarrow> n < N" and "length h = N"
  shows "foldE f ns h = Inr (map (\<lambda>m. if m \<in> set ns then h ! m + g m else h ! m) [0..<N])"
  using assms
proof (induction ns arbitrary: h)
  case Nil
  then show ?case by (simp add: list_eq_iff_nth_eq)
next
  case (Cons n ns)
  let ?h = "add_at n (g n) h"
  have step: "f n h = Inr ?h" using Cons.prems by simp
  have len: "length ?h = N" using Cons.prems by simp
  have "foldE f ns ?h = Inr (map (\<lambda>m. if m \<in> set ns then ?h ! m + g m else ?h ! m) [0..<N])"
    using Cons.prems len by (intro Cons.IH) auto
  moreover have "map (\<lambda>m. if m \<in> set ns then ?h ! m + g m else ?h ! m) [0..<N]
               = map (\<lambda>m. if m \<in> set (n # ns) then h ! m + g m else h ! m) [0..<N]"
    using Cons.prems by (auto simp: add_at_def nth_list_update)
  ultimately show ?case using step by simp
qed


lemma wf_msa_row: "wf_msa A msa \<Longrightarrow> r \<in> set (rows msa) \<Longrightarrow> k < ncol msa \<Longrightarrow> r ! k < A"
  by (auto simp: wf_msa_def list_all_iff)

lemma wf_msa_nth: "wf_msa A msa \<Longrightarrow> n < nrow msa \<Longrightarrow> k < ncol msa \<Longrightarrow> rows msa ! n ! k < A"
  by (simp add: wf_msa_row nrow_def)

lemma pair_counts_nth:
  "k < ncol msa \<Longrightarrow> l < ncol msa \<Longrightarrow> a < A \<Longrightarrow> b < A \<Longrightarrow>
   pair_counts A msa ! k ! l ! a ! b =
     real (length (filter (\<lambda>r. r ! k = a \<and> r ! l = b) (rows msa)))"
  by (simp add: pair_counts_def)

lemma pair_counts_occurrences:
  "k < ncol msa \<Longrightarrow> l < ncol msa \<Longrightarrow> a < A \<Longrightarrow> b < A \<Longrightarrow>
   pair_counts A msa ! k ! l ! a ! b = real (pair_occurrences msa k l a b)"
proof -
  assume "k < ncol msa" "l < ncol msa" "a < A" "b < A"
  moreover have "{n \<in> {0..<nrow msa}. rows msa ! n ! k = a \<and> rows msa ! n ! l = b}
      = {i. i < length (rows msa) \<and> (rows msa ! i ! k = a \<and> rows msa ! i ! l = b)}"
    by (auto simp: nrow_def)
  ultimately show ?thesis
    by (simp add: pair_counts_nth pair_occurrences_def length_filter_conv_card)
qed

lemma count_nonzero_upt:
  "count_nonzero (map (\<lambda>b. real (c b)) [0..<A]) = card {b \<in> {0..<A}. c b \<noteq> 0}"
proof -
  have "count_nonzero (map (\<lambda>b. real (c b)) [0..<A]) = length (filter (\<lambda>b. c b \<noteq> 0) [0..<A])"
    by (simp add: count_nonzero_def filter_map o_def)
  also have "\<dots> = card ({b. c b \<noteq> 0} \<inter> set [0..<A])"
    by (simp add: distinct_length_filter)
  also have "{b. c b \<noteq> 0} \<inter> set [0..<A] = {b \<in> {0..<A}. c b \<noteq> 0}"
    by auto
  finally show ?thesis .
qed

lemma pair_unique_aa_nth:
  assumes "k < ncol msa" "l < ncol msa"
  shows "pair_unique_aa (pair_counts A msa) ! k ! l =
     card (SIGMA a:{0..<A}. {b \<in> {0..<A}. filter (\<lambda>r. r ! k = a \<and> r ! l = b) (rows msa) \<noteq> []})"
proof -
  let ?c = "\<lambda>a b. length (filter (\<lambda>r. r ! k = a \<and> r ! l = b) (rows msa))"
  have "pair_unique_aa (pair_counts A msa) ! k ! l =
        sum_list (map (\<lambda>a. count_nonzero (map (\<lambda>b. real (?c a b)) [0..<A])) [0..<A])"
    using assms by (simp add: pair_unique_aa_def pair_counts_def o_def)
  also have "\<dots> = sum_list (map (\<lambda>a. card {b \<in> {0..<A}. ?c a b \<noteq> 0}) [0..<A])"
    by (simp only: count_nonzero_upt)
  also have "\<dots> = (\<Sum>a \<in> {0..<A}. card {b \<in> {0..<A}. ?c a b \<noteq> 0})"
    by (simp add: interv_sum_list_conv_sum_set_nat)
  also have "\<dots> = card (SIGMA a:{0..<A}. {b \<in> {0..<A}. ?c a b \<noteq> 0})"
    by (simp add: card_SigmaI)
  finally show ?thesis by simp
qed

lemma pair_unique_aa_distinct_pairs:
  assumes "wf_msa A msa" "k < ncol msa" "l < ncol msa"
  shows "pair_unique_aa (pair_counts A msa) ! k ! l = distinct_pairs msa k l"
proof -
  have "(SIGMA a:{0..<A}. {b \<in> {0..<A}. filter (\<lambda>r. r ! k = a \<and> r ! l = b) (rows msa) \<noteq> []})
      = (\<lambda>r. (r ! k, r ! l)) ` set (rows msa)"
    using assms by (auto simp: filter_empty_conv wf_msa_row)
  then show ?thesis
    using assms by (simp add: pair_unique_aa_nth distinct_pairs_def)
qed

lemma pair_occurrences_pos:
  "n < nrow msa \<Longrightarrow> 0 < pair_occurrences msa k l (rows msa ! n ! k) (rows msa ! n ! l)"
proof -
  assume n: "n < nrow msa"
  let ?S = "{m \<in> {0..<nrow msa}. rows msa ! m ! k = rows msa ! n ! k \<and> rows msa ! m ! l = rows msa ! n ! l}"
  have "finite ?S" by simp
  moreover have "n \<in> ?S" using n by simp
  ultimately have "0 < card ?S" using card_gt_0_iff by blast
  then show ?thesis by (simp add: pair_occurrences_def)
qed

lemma distinct_pairs_pos: "n < nrow msa \<Longrightarrow> 0 < distinct_pairs msa k l"
proof -
  assume "n < nrow msa"
  then have "rows msa \<noteq> []" by (auto simp: nrow_def)
  then show ?thesis by (simp add: distinct_pairs_def card_gt_0_iff)
qed


lemma pair_term_ok:
  assumes "wf_msa A msa" "n < nrow msa" "k < ncol msa" "l < ncol msa"
  shows "pair_term A (pair_counts A msa) (pair_unique_aa (pair_counts A msa)) (rows msa ! n) k l =
         Inr (1 / (real (pair_occurrences msa k l (rows msa ! n ! k) (rows msa ! n ! l)) *
                   real (distinct_pairs msa k l)))"
proof -
  have a: "rows msa ! n ! k < A" and b: "rows msa ! n ! l < A"
    using assms by (simp_all add: wf_msa_nth)
  have "0 < pair_occurrences msa k l (rows msa ! n ! k) (rows msa ! n ! l)"
    using assms(2) by (rule pair_occurrences_pos)
  moreover have "0 < distinct_pairs msa k l"
    using assms(2) by (rule distinct_pairs_pos)
  ultimately show ?thesis
    using assms a b
    by (simp add: pair_term_def np_recip_def pair_counts_occurrences pair_unique_aa_distinct_pairs)
qed

lemma column_pairs_Sigma: "column_pairs L = (SIGMA k:{0..<L - 1}. {k + 1..<L})"
  by (auto simp: column_pairs_def)

lemma sum_list_column_pairs:
  "sum_list (map (\<lambda>k. sum_list (map (\<lambda>l. t k l) [k + 1..<L])) [0..<L - 1]) =
   (\<Sum>(k, l) \<in> column_pairs L. t k l)"
  by (simp add: interv_sum_list_conv_sum_set_nat column_pairs_Sigma sum.Sigma)

lemma henikoff_pair_loops:
  assumes "wf_msa A msa"
  shows "weights_henikoff_pair A msa = Inr (map (henikoff_pair_weight msa) [0..<nrow msa])"
proof -
  let ?pc = "pair_counts A msa"
  let ?ua = "pair_unique_aa ?pc"
  let ?t = "\<lambda>n k l. 1 / (real (pair_occurrences msa k l (rows msa ! n ! k) (rows msa ! n ! l)) *
                            real (distinct_pairs msa k l))"
  let ?inner = "\<lambda>n k. foldE (\<lambda>l henikoff.
                 case pair_term A ?pc ?ua (rows msa ! n) k l of
                   Inl e \<Rightarrow> Inl e
                 | Inr t \<Rightarrow> Inr (add_at n t henikoff)) [k + 1..<ncol msa]"
  let ?middle = "\<lambda>n. foldE (?inner n) [0..<ncol msa - 1]"
  have inner: "?inner n k h = Inr (add_at n (sum_list (map (?t n k) [k + 1..<ncol msa])) h)"
    if "n < nrow msa" "k \<in> set [0..<ncol msa - 1]" "n < length h" for n k h
  proof (rule foldE_inner)
    fix l assume "l \<in> set [k + 1..<ncol msa]"
    then have "k < ncol msa" "l < ncol msa" by auto
    then show "pair_term A ?pc ?ua (rows msa ! n) k l = Inr (?t n k l)"
      using assms that(1) by (simp add: pair_term_ok)
  qed (rule that(3))
  have middle: "?middle n h = Inr (add_at n (henikoff_pair_weight msa n) h)"
    if "n \<in> set [0..<nrow msa]" "length h = nrow msa" for n h
  proof -
    have n: "n < nrow msa" "n < length h" using that by auto
    have "?middle n h =
          Inr (add_at n (sum_list (map (\<lambda>k. sum_list (map (?t n k) [k + 1..<ncol msa])) [0..<ncol msa - 1])) h)"
    proof (rule foldE_add_at)
      fix k and h' :: "real list" assume "k \<in> set [0..<ncol msa - 1]" "n < length h'"
      then show "?inner n k h' = Inr (add_at n (sum_list (map (?t n k) [k + 1..<ncol msa])) h')"
        using n(1) by (rule inner [rotated])
    qed (rule n(2))
    then show ?thesis
      by (simp only: sum_list_column_pairs henikoff_pair_weight_def)
  qed
  have "foldE ?middle [0..<nrow msa] (replicate (nrow msa) 0) =
        Inr (map (\<lambda>m. if m \<in> set [0..<nrow msa]
                       then replicate (nrow msa) 0 ! m + henikoff_pair_weight msa m
                       else replicate (nrow msa) 0 ! m) [0..<nrow msa])"
  proof (rule foldE_rows)
    fix n and h :: "real list" assume "n \<in> set [0..<nrow msa]" "length h = nrow msa"
    then show "?middle n h = Inr (add_at n (henikoff_pair_weight msa n) h)" by (rule middle)
  qed simp_all
  also have "map (\<lambda>m. if m \<in> set [0..<nrow msa]
                       then replicate (nrow msa) 0 ! m + henikoff_pair_weight msa m
                       else replicate (nrow msa) 0 ! m) [0..<nrow msa]
             = map (henikoff_pair_weight msa) [0..<nrow msa]"
    by simp
  finally show ?thesis
    by (simp add: weights_henikoff_pair_def Let_def)
qed

text \<open>
  Claim C5. For every alignment with \<open>N\<close> rows and \<open>L\<close> columns,
  \<open>weights_henikoff_pair\<close> returns a vector of \<open>N\<close> weights, where the weight of row
  \<open>n\<close> is the sum, over the column pairs \<open>(k, l)\<close> with \<open>k < l\<close>, each taken once,
  of \<open>1/(pair_counts[k,l,msa[n,k],msa[n,l]] * unique_aa[k,l])\<close>; the pair count is
  the number of rows that show that state pair at \<open>(k, l)\<close> and \<open>unique_aa[k,l]\<close>
  is the number of distinct state pairs seen at \<open>(k, l)\<close>. Both factors are
  positive, so no term divides by zero.
\<close>

theorem weights_henikoff_pair_formula:
  assumes "wf_msa A msa"
  shows "weights_henikoff_pair A msa = Inr (map (henikoff_pair_weight msa) [0..<nrow msa]) \<and>
         (\<forall>n < nrow msa. \<forall>k l.
             0 < pair_occurrences msa k l (rows msa ! n ! k) (rows msa ! n ! l) \<and>
             0 < distinct_pairs msa k l)"
  using assms by (simp add: henikoff_pair_loops pair_occurrences_pos distinct_pairs_pos)

theorem weights_henikoff_pair_formula_witness:
  "wf_msa 3 \<lparr>ncol = 3, rows = [[0, 1, 2], [0, 2, 2]]\<rparr> \<and>
   weights_henikoff_pair 3 \<lparr>ncol = 3, rows = [[0, 1, 2], [0, 2, 2]]\<rparr> =
     Inr (map (henikoff_pair_weight \<lparr>ncol = 3, rows = [[0, 1, 2], [0, 2, 2]]\<rparr>) [0..<2]) \<and>
   weights_henikoff_pair 3 \<lparr>ncol = 3, rows = [[0, 1, 2], [0, 2, 2]]\<rparr> = Inr [3 / 2, 3 / 2]"
proof -
  have wf: "wf_msa 3 \<lparr>ncol = 3, rows = [[0, 1, 2], [0, 2, 2]]\<rparr>"
    by (simp add: wf_msa_def)
  have val: "weights_henikoff_pair 3 \<lparr>ncol = 3, rows = [[0, 1, 2], [0, 2, 2]]\<rparr> = Inr [3 / 2, 3 / 2]"
    by (simp add: weights_henikoff_pair_def pair_counts_def pair_unique_aa_def pair_term_def
        count_nonzero_def np_recip_def add_at_def nrow_def upt_conv_Cons)
  have n: "nrow \<lparr>ncol = 3, rows = [[0, 1, 2], [0, 2, 2]]\<rparr> = 2"
    by (simp add: nrow_def)
  have eq: "weights_henikoff_pair 3 \<lparr>ncol = 3, rows = [[0, 1, 2], [0, 2, 2]]\<rparr> =
     Inr (map (henikoff_pair_weight \<lparr>ncol = 3, rows = [[0, 1, 2], [0, 2, 2]]\<rparr>)
           [0..<nrow \<lparr>ncol = 3, rows = [[0, 1, 2], [0, 2, 2]]\<rparr>])"
    using weights_henikoff_pair_formula [OF wf] by (rule conjunct1)
  show ?thesis
    by (intro conjI wf eq [unfolded n] val)
qed

subsection \<open>The single-site weights\<close>

lemma np_delete_where_zero: "np_delete xs (np_where_zero xs) = filter (\<lambda>c. c \<noteq> 0) xs"
proof -
  have "filter (\<lambda>i. i \<notin> set (np_where_zero xs)) [0..<length xs] = filter (\<lambda>i. xs ! i \<noteq> 0) [0..<length xs]"
    by (rule filter_cong) (auto simp: np_where_zero_def)
  then have "np_delete xs (np_where_zero xs) = map (\<lambda>i. xs ! i) (filter (\<lambda>i. xs ! i \<noteq> 0) [0..<length xs])"
    by (simp add: np_delete_def)
  also have "\<dots> = filter (\<lambda>c. c \<noteq> 0) (map (\<lambda>i. xs ! i) [0..<length xs])"
    by (simp add: filter_map o_def)
  also have "map (\<lambda>i. xs ! i) [0..<length xs] = xs"
    by (rule map_nth)
  finally show ?thesis .
qed

lemma collect_recip: "0 \<notin> set xs \<Longrightarrow> collect (map np_recip xs) = Inr (map (\<lambda>c. 1 / c) xs)"
  by (induction xs) (auto simp: np_recip_def)

lemma collect_all_Inr: "(\<And>x. x \<in> set xs \<Longrightarrow> f x = Inr (g x)) \<Longrightarrow> collect (map f xs) = Inr (map g xs)"
  by (induction xs) auto

lemma np_recip2_nonzero:
  "(\<And>r. r \<in> set rs \<Longrightarrow> 0 \<notin> set r) \<Longrightarrow> np_recip2 rs = Inr (map (map (\<lambda>c. 1 / c)) rs)"
  unfolding np_recip2_def by (rule collect_all_Inr) (simp add: collect_recip)

lemma np_array2_Inr: "np_array2 rs = Inr rs' \<Longrightarrow> rs' = rs"
  by (auto simp: np_array2_def split: list.splits if_splits)


lemma collect_Inl: "collect xs = Inl e \<Longrightarrow> Inl e \<in> set xs"
  by (induction xs) (auto split: sum.splits)

lemma zero_gap_counts_failure: "zero_gap_counts A sc = Inl e \<Longrightarrow> e = IndexError"
  by (auto simp: zero_gap_counts_def split: if_splits)

lemma cNi_row_failure: "cNi_row A L sc u r = Inl e \<Longrightarrow> e = IndexError"
  by (auto simp: cNi_row_def split: if_splits)

lemma np_array2_failure: "np_array2 rs = Inl e \<Longrightarrow> e = ValueError"
  by (auto simp: np_array2_def split: list.splits if_splits)

lemma np_recip2_deleted:
  "np_recip2 (map (\<lambda>n. np_delete (cNi ! n) (np_where_zero (cNi ! n))) ns) =
   Inr (map (\<lambda>n. map (\<lambda>c. 1 / c) (filter (\<lambda>c. c \<noteq> 0) (cNi ! n))) ns)"
proof -
  have "np_recip2 (map (\<lambda>n. np_delete (cNi ! n) (np_where_zero (cNi ! n))) ns) =
        Inr (map (map (\<lambda>c. 1 / c)) (map (\<lambda>n. np_delete (cNi ! n) (np_where_zero (cNi ! n))) ns))"
    by (rule np_recip2_nonzero) (auto simp: np_delete_where_zero)
  then show ?thesis by (simp add: np_delete_where_zero o_def)
qed

lemma weights_henikoff_failure:
  assumes "weights_henikoff A msa count_gaps = Inl e"
  shows "e = IndexError \<or> e = ValueError"
proof -
  define start where "start = (if \<not> count_gaps then zero_gap_counts A (single_counts A msa)
            else Inr (single_counts A msa))"
  show ?thesis
  proof (cases start)
    case (Inl e')
    then have "e' = IndexError"
      by (auto simp: start_def dest: zero_gap_counts_failure split: if_splits)
    moreover have "weights_henikoff A msa count_gaps = Inl e'"
      using Inl by (simp add: weights_henikoff_def start_def [symmetric])
    ultimately show ?thesis using assms by simp
  next
    case (Inr sc)
    define cs where "cs = collect (map (\<lambda>n. cNi_row A (ncol msa) sc (map count_nonzero sc) (rows msa ! n)) [0..<nrow msa])"
    have w: "weights_henikoff A msa count_gaps =
      (case cs of
             Inl e \<Rightarrow> Inl e
           | Inr cNi \<Rightarrow>
               (case np_array2 (map (\<lambda>n. np_delete (cNi ! n) (np_where_zero (cNi ! n))) [0..<nrow msa]) of
                  Inl e \<Rightarrow> Inl e
                | Inr cNi_nogaps \<Rightarrow>
                    (case np_recip2 cNi_nogaps of
                       Inl e \<Rightarrow> Inl e
                     | Inr recips \<Rightarrow> Inr (py_sum recips))))"
      using Inr by (simp add: weights_henikoff_def start_def [symmetric] cs_def Let_def)
    show ?thesis
    proof (cases cs)
      case (Inl e')
      then have "Inl e' \<in> set (map (\<lambda>n. cNi_row A (ncol msa) sc (map count_nonzero sc) (rows msa ! n)) [0..<nrow msa])"
        unfolding cs_def by (rule collect_Inl)
      then have "e' = IndexError" by (auto dest: cNi_row_failure [OF sym])
      then show ?thesis using assms w Inl by simp
    next
      case cNi: (Inr cNi)
      show ?thesis
      proof (cases "np_array2 (map (\<lambda>n. np_delete (cNi ! n) (np_where_zero (cNi ! n))) [0..<nrow msa])")
        case (Inl e')
        then have "e' = ValueError" by (rule np_array2_failure)
        then show ?thesis using assms w cNi Inl by simp
      next
        case (Inr nog)
        then have "nog = map (\<lambda>n. np_delete (cNi ! n) (np_where_zero (cNi ! n))) [0..<nrow msa]"
          by (rule np_array2_Inr)
        then have "np_recip2 nog = Inr (map (\<lambda>n. map (\<lambda>c. 1 / c) (filter (\<lambda>c. c \<noteq> 0) (cNi ! n))) [0..<nrow msa])"
          by (simp only: np_recip2_deleted)
        then show ?thesis using assms w cNi Inr by simp
      qed
    qed
  qed
qed

text \<open>
  Claim C4. For every alignment and either value of \<open>count_gaps\<close>,
  \<open>weights_henikoff\<close> never divides by zero: in every row of products the entries
  that are zero are deleted before the reciprocals are taken, so every reciprocal
  is that of a non-zero product.
\<close>

theorem weights_henikoff_never_divides_by_zero:
  "weights_henikoff A msa count_gaps \<noteq> Inl DivideByZero \<and>
   np_delete xs (np_where_zero xs) = filter (\<lambda>c. c \<noteq> 0) xs \<and>
   collect (map np_recip (np_delete xs (np_where_zero xs))) =
     Inr (map (\<lambda>c. 1 / c) (filter (\<lambda>c. c \<noteq> 0) xs))"
proof -
  have "weights_henikoff A msa count_gaps \<noteq> Inl DivideByZero"
    using weights_henikoff_failure [of A msa count_gaps DivideByZero] by auto
  moreover have "collect (map np_recip (filter (\<lambda>c. c \<noteq> 0) xs)) =
     Inr (map (\<lambda>c. 1 / c) (filter (\<lambda>c. c \<noteq> 0) xs))"
    by (rule collect_recip) simp
  ultimately show ?thesis by (simp add: np_delete_where_zero)
qed

theorem weights_henikoff_never_divides_by_zero_witness:
  "weights_henikoff 2 \<lparr>ncol = 2, rows = [[0, 1], [1, 0]]\<rparr> False \<noteq> Inl DivideByZero \<and>
   weights_henikoff 2 \<lparr>ncol = 2, rows = [[0, 1], [1, 0]]\<rparr> False = Inr (Array [2]) \<and>
   np_delete [0, 3, 0, 2] (np_where_zero [0, 3, 0, 2]) = [3, 2]"
proof -
  have "weights_henikoff 2 \<lparr>ncol = 2, rows = [[0, 1], [1, 0]]\<rparr> False = Inr (Array [2])"
    by (simp add: weights_henikoff_def single_counts_def zero_gap_counts_def count_nonzero_def
        cNi_row_def np_where_zero_def np_delete_def np_array2_def np_recip_def np_recip2_def
        py_sum_def nrow_def upt_conv_Cons)
  then show ?thesis
    using weights_henikoff_never_divides_by_zero
      [of 2 "\<lparr>ncol = 2, rows = [[0, 1], [1, 0]]\<rparr>" False "[0, 3, 0, 2]"]
    by simp
qed

text \<open>
  Claim C1. The worked example of the Henikoff paper, as the comment in
  \<open>weights_henikoff\<close> gives it: four sequences, five columns, seven states, and
  the counts of the comment, which include state 0 (so \<open>count_gaps\<close> is true). The
  comment's reference weights are one per sequence,
  \<open>[1.33333333, 1.33333333, 1., 1.33333333]\<close>. The function instead adds the rows
  of reciprocals to each other and returns one number per column, all equal to 1.
  With \<open>count_gaps\<close> false the rows of products keep 3, 3, 3 and 2 entries, and
  \<open>np.array\<close> fails.
\<close>

theorem weights_henikoff_worked_example:
  "weights_henikoff 7 henikoff_example True = Inr (Array [1, 1, 1, 1, 1]) \<and>
   weights_henikoff 7 henikoff_example False = Inl ValueError \<and>
   nrow henikoff_example = 4"
  by (simp add: henikoff_example_def weights_henikoff_def single_counts_def zero_gap_counts_def
      count_nonzero_def cNi_row_def np_where_zero_def np_delete_def np_array2_def np_recip_def
      np_recip2_def py_sum_def nrow_def upt_conv_Cons)

text \<open>
  Claim C2. Every weighting policy returns one non-negative weight per alignment
  row. \<open>weights_henikoff\<close> does not: for two gap-free rows of three columns it
  returns three numbers, one per column, where two weights are due.
\<close>

theorem weights_henikoff_length_mismatch:
  "weights_henikoff 21 \<lparr>ncol = 3, rows = [[1, 2, 3], [1, 2, 4]]\<rparr> False = Inr (Array [1, 1, 1]) \<and>
   nrow \<lparr>ncol = 3, rows = [[1, 2, 3], [1, 2, 4]]\<rparr> = 2"
  by (simp add: weights_henikoff_def single_counts_def zero_gap_counts_def
      count_nonzero_def cNi_row_def np_where_zero_def np_delete_def np_array2_def np_recip_def
      np_recip2_def py_sum_def nrow_def upt_conv_Cons)

subsection \<open>The single-site weights are column sums\<close>

lemma zip_map_same: "zip (map f xs) (map g xs) = map (\<lambda>x. (f x, g x)) xs"
  by (induction xs) auto

lemma fold_np_add_rows:
  "fold (\<lambda>r acc. np_add acc r) (map (\<lambda>n. map (f n) [0..<L]) ns) (Array (map g [0..<L])) =
   Array (map (\<lambda>l. g l + sum_list (map (\<lambda>n. f n l) ns)) [0..<L])"
proof (induction ns arbitrary: g)
  case Nil
  then show ?case by simp
next
  case (Cons n ns)
  have "np_add (Array (map g [0..<L])) (map (f n) [0..<L]) = Array (map (\<lambda>l. g l + f n l) [0..<L])"
    by (simp add: zip_map_same o_def)
  then show ?case
    using Cons.IH [of "\<lambda>l. g l + f n l"] by (simp add: add.assoc)
qed

lemma py_sum_rows:
  assumes "0 < N"
  shows "py_sum (map (\<lambda>n. map (f n) [0..<L]) [0..<N]) =
         Array (map (\<lambda>l. \<Sum>n = 0..<N. f n l) [0..<L])"
proof -
  have upt: "[0..<N] = 0 # [1..<N]" using assms by (simp add: upt_conv_Cons)
  have "py_sum (map (\<lambda>n. map (f n) [0..<L]) [0..<N]) =
        fold (\<lambda>r acc. np_add acc r) (map (\<lambda>n. map (f n) [0..<L]) [1..<N]) (Array (map (f 0) [0..<L]))"
    unfolding py_sum_def upt by (simp add: o_def)
  also have "\<dots> = Array (map (\<lambda>l. f 0 l + sum_list (map (\<lambda>n. f n l) [1..<N])) [0..<L])"
    by (rule fold_np_add_rows)
  also have "(\<lambda>l. f 0 l + sum_list (map (\<lambda>n. f n l) [1..<N])) = (\<lambda>l. sum_list (map (\<lambda>n. f n l) [0..<N]))"
    unfolding upt by simp
  finally show ?thesis by (simp add: interv_sum_list_conv_sum_set_nat)
qed

lemma times_own_reciprocal: "0 < u \<Longrightarrow> u * (1 / u) = (1::real)"
  by simp

lemma times_reciprocal_product: "0 < c \<Longrightarrow> c * (1 / (c * u)) = 1 / (u::real)"
  by simp

lemma sum_reciprocal_class_sizes:
  fixes g :: "nat \<Rightarrow> 'a"
  assumes "0 < N"
  shows "(\<Sum>n = 0..<N. 1 / (real (card {m \<in> {0..<N}. g m = g n}) * real (card (g ` {0..<N})))) = 1"
proof -
  let ?S = "{0..<N}"
  let ?u = "real (card (g ` ?S))"
  let ?c = "\<lambda>a. real (card {m \<in> ?S. g m = a})"
  have upos: "0 < ?u" using assms by (simp add: card_gt_0_iff)
  have "(\<Sum>n \<in> ?S. 1 / (?c (g n) * ?u)) = (\<Sum>a \<in> g ` ?S. \<Sum>n \<in> {m \<in> ?S. g m = a}. 1 / (?c (g n) * ?u))"
    by (rule sum.image_gen) simp
  also have "\<dots> = (\<Sum>a \<in> g ` ?S. 1 / ?u)"
  proof (rule sum.cong)
    fix a assume a: "a \<in> g ` ?S"
    then have "{m \<in> ?S. g m = a} \<noteq> {}" by auto
    then have cpos: "0 < ?c a" by (simp add: card_gt_0_iff)
    have "(\<Sum>n \<in> {m \<in> ?S. g m = a}. 1 / (?c (g n) * ?u)) = (\<Sum>n \<in> {m \<in> ?S. g m = a}. 1 / (?c a * ?u))"
      by (rule sum.cong) auto
    also have "\<dots> = ?c a * (1 / (?c a * ?u))" by simp
    also have "\<dots> = 1 / ?u" using cpos by (rule times_reciprocal_product)
    finally show "(\<Sum>n \<in> {m \<in> ?S. g m = a}. 1 / (?c (g n) * ?u)) = 1 / ?u" .
  qed simp
  also have "\<dots> = ?u * (1 / ?u)" by simp
  also have "\<dots> = 1" using upos by (rule times_own_reciprocal)
  finally show ?thesis .
qed


lemma single_counts_nth:
  assumes "l < ncol msa" "a < A"
  shows "single_counts A msa ! l ! a = real (card {m \<in> {0..<nrow msa}. rows msa ! m ! l = a})"
proof -
  have "{m \<in> {0..<nrow msa}. rows msa ! m ! l = a} = {i. i < length (rows msa) \<and> rows msa ! i ! l = a}"
    by (auto simp: nrow_def)
  then show ?thesis
    using assms by (simp add: single_counts_def length_filter_conv_card)
qed

lemma single_unique_aa:
  assumes "wf_msa A msa" "l < ncol msa"
  shows "count_nonzero (single_counts A msa ! l) = card ((\<lambda>n. rows msa ! n ! l) ` {0..<nrow msa})"
proof -
  have "single_counts A msa ! l =
        map (\<lambda>a. real (length (filter (\<lambda>r. r ! l = a) (rows msa)))) [0..<A]"
    using assms(2) by (simp add: single_counts_def)
  then have "count_nonzero (single_counts A msa ! l) =
        card {a \<in> {0..<A}. length (filter (\<lambda>r. r ! l = a) (rows msa)) \<noteq> 0}"
    by (simp only: count_nonzero_upt)
  moreover have "{a \<in> {0..<A}. length (filter (\<lambda>r. r ! l = a) (rows msa)) \<noteq> 0} =
        (\<lambda>r. r ! l) ` set (rows msa)"
    using assms by (auto simp: filter_empty_conv wf_msa_row)
  moreover have "(\<lambda>r. r ! l) ` set (rows msa) = (\<lambda>n. rows msa ! n ! l) ` {0..<nrow msa}"
  proof -
    have "set (rows msa) = (!) (rows msa) ` {0..<nrow msa}"
      using nth_image [of "length (rows msa)" "rows msa"] by (simp add: nrow_def)
    then show ?thesis by (simp add: image_image)
  qed
  ultimately show ?thesis by simp
qed

text \<open>
  The column sums in general. For every alignment with at least one row, with
  \<open>count_gaps\<close> true, no product is zero, the rows of reciprocals are added to
  each other, and each column of reciprocals adds up to 1: the result is one 1
  per column, whatever the alignment contains.
\<close>

theorem weights_henikoff_count_gaps_ones:
  assumes wf: "wf_msa A msa" and pos: "0 < nrow msa"
  shows "weights_henikoff A msa True = Inr (Array (replicate (ncol msa) 1))"
proof -
  let ?N = "nrow msa" and ?L = "ncol msa"
  let ?sc = "single_counts A msa"
  let ?ua = "map count_nonzero ?sc"
  define d where "d = (\<lambda>n l. real (card {m \<in> {0..<nrow msa}. rows msa ! m ! l = rows msa ! n ! l}) *
                               real (card ((\<lambda>n. rows msa ! n ! l) ` {0..<nrow msa})))"
  have len_sc: "length ?sc = ?L" by (simp add: single_counts_def)
  have row: "cNi_row A ?L ?sc ?ua (rows msa ! n) = Inr (map (d n) [0..<?L])" if "n < ?N" for n
  proof -
    have ok: "list_all (\<lambda>l. rows msa ! n ! l < A) [0..<?L]"
      using wf that by (simp add: list_all_iff wf_msa_nth)
    have "?sc ! l ! (rows msa ! n ! l) * real (?ua ! l) = d n l" if "l < ?L" for l
      using wf \<open>n < ?N\<close> that
      by (simp add: single_counts_nth wf_msa_nth single_unique_aa len_sc d_def)
    then have "map (\<lambda>l. ?sc ! l ! (rows msa ! n ! l) * real (?ua ! l)) [0..<?L] = map (d n) [0..<?L]"
      by simp
    then show ?thesis using ok by (simp only: cNi_row_def if_True)
  qed
  have cNi: "collect (map (\<lambda>n. cNi_row A ?L ?sc ?ua (rows msa ! n)) [0..<?N]) =
             Inr (map (\<lambda>n. map (d n) [0..<?L]) [0..<?N])"
    by (rule collect_all_Inr) (simp add: row)
  have dpos: "0 < d n l" if "n < ?N" for n l
  proof -
    have "{m \<in> {0..<?N}. rows msa ! m ! l = rows msa ! n ! l} \<noteq> {}" using that by auto
    then have "0 < card {m \<in> {0..<?N}. rows msa ! m ! l = rows msa ! n ! l}"
      by (simp add: card_gt_0_iff)
    moreover have "0 < card ((\<lambda>n. rows msa ! n ! l) ` {0..<?N})"
      using pos by (simp add: card_gt_0_iff)
    ultimately show ?thesis unfolding d_def by simp
  qed
  have dnz: "0 \<notin> set (map (d n) [0..<?L])" if "n < ?N" for n
  proof
    assume "0 \<in> set (map (d n) [0..<?L])"
    then obtain l where "d n l = 0" by auto
    then show False using dpos [OF that, of l] by simp
  qed
  have keep: "np_delete (map (d n) [0..<?L]) (np_where_zero (map (d n) [0..<?L])) = map (d n) [0..<?L]"
    if "n < ?N" for n
  proof -
    have "filter (\<lambda>c. c \<noteq> 0) (map (d n) [0..<?L]) = map (d n) [0..<?L]"
      using dnz [OF that] by (intro filter_True) metis
    then show ?thesis by (simp only: np_delete_where_zero)
  qed
  define cNi' where "cNi' = map (\<lambda>n. map (d n) [0..<?L]) [0..<?N]"
  have cNi'_nth: "cNi' ! n = map (d n) [0..<?L]" if "n < ?N" for n
    using that by (simp add: cNi'_def)
  have nogaps: "map (\<lambda>n. np_delete (cNi' ! n) (np_where_zero (cNi' ! n))) [0..<?N] = cNi'"
    by (rule nth_equalityI) (simp_all add: keep cNi'_nth, simp add: cNi'_def)
  have arr: "np_array2 cNi' = Inr cNi'"
    by (auto simp: np_array2_def list_all_iff cNi'_def split: list.splits)
  have nz: "0 \<notin> set r" if "r \<in> set cNi'" for r
  proof -
    from that obtain n where "n < ?N" "r = map (d n) [0..<?L]"
      by (auto simp: cNi'_def)
    then show ?thesis using dnz by simp
  qed
  have rec: "np_recip2 cNi' = Inr (map (\<lambda>n. map (\<lambda>l. 1 / d n l) [0..<?L]) [0..<?N])"
    using np_recip2_nonzero [of cNi'] nz by (simp add: o_def cNi'_def)
  have "py_sum (map (\<lambda>n. map (\<lambda>l. 1 / d n l) [0..<?L]) [0..<?N]) =
        Array (map (\<lambda>l. \<Sum>n = 0..<?N. 1 / d n l) [0..<?L])"
    using pos by (rule py_sum_rows)
  also have "(\<lambda>l. \<Sum>n = 0..<?N. 1 / d n l) = (\<lambda>l. 1)"
    unfolding d_def using pos by (simp only: sum_reciprocal_class_sizes)
  also have "map (\<lambda>l. 1::real) [0..<?L] = replicate ?L 1"
    by (simp add: map_replicate_const)
  finally have sum: "py_sum (map (\<lambda>n. map (\<lambda>l. 1 / d n l) [0..<?L]) [0..<?N]) = Array (replicate ?L 1)" .
  show ?thesis
    unfolding weights_henikoff_def
    by (simp add: Let_def cNi cNi'_def [symmetric] nogaps arr rec sum)
qed

theorem weights_henikoff_count_gaps_ones_witness:
  "wf_msa 7 henikoff_example \<and> 0 < nrow henikoff_example \<and>
   weights_henikoff 7 henikoff_example True = Inr (Array (replicate 5 1))"
proof -
  have wf: "wf_msa 7 henikoff_example"
    by (simp add: henikoff_example_def wf_msa_def)
  have pos: "0 < nrow henikoff_example"
    by (simp add: henikoff_example_def nrow_def)
  have L: "ncol henikoff_example = 5"
    by (simp add: henikoff_example_def)
  show ?thesis
    using weights_henikoff_count_gaps_ones [OF wf pos] wf pos unfolding L by simp
qed

text \<open>
  The pair weights do keep the contract of the weighting policies: one weight per
  row, none of them negative.
\<close>

theorem weights_henikoff_pair_per_row:
  assumes "wf_msa A msa"
  shows "\<exists>w. weights_henikoff_pair A msa = Inr w \<and> length w = nrow msa \<and>
             (\<forall>n < nrow msa. 0 \<le> w ! n)"
proof -
  have "0 \<le> henikoff_pair_weight msa n" for n
    unfolding henikoff_pair_weight_def by (rule sum_nonneg) auto
  then show ?thesis
    using henikoff_pair_loops [OF assms] by simp
qed

theorem weights_henikoff_pair_per_row_witness:
  "wf_msa 3 \<lparr>ncol = 3, rows = [[0, 1, 2], [0, 2, 2]]\<rparr> \<and>
   (\<exists>w. weights_henikoff_pair 3 \<lparr>ncol = 3, rows = [[0, 1, 2], [0, 2, 2]]\<rparr> = Inr w \<and>
        length w = 2)"
proof -
  have wf: "wf_msa 3 \<lparr>ncol = 3, rows = [[0, 1, 2], [0, 2, 2]]\<rparr>"
    by (simp add: wf_msa_def)
  show ?thesis
    using weights_henikoff_pair_per_row [OF wf] wf by (auto simp: nrow_def)
qed

section \<open>Properties of the driver\<close>

subsection \<open>Validation and dispatch\<close>

text \<open>
  Claim C6. For every configuration with neither the MCMC flag nor a tree
  specification, and for every configuration with a tree specification but
  neither a constant mutation rate (the rate is 0.0, its default) nor the
  Neff-matching option, the program reports a fatal configuration error before
  any other work: \<open>parse_args\<close> ends in \<open>parser.error\<close> and the run consists of that
  exit alone, with no alignment read, no potentials loaded and no sampler called.
\<close>

theorem configuration_error_before_sampling:
  assumes "(\<not> mcmc opt \<and> \<not> tree_specified opt) \<or>
           (tree_specified opt \<and> mutation_rate opt = 0 \<and> \<not> mutation_rate_neff opt)"
  shows "\<exists>msg. parse_args opt = Inl msg \<and> main env opt = [Exit msg]"
  using assms by (auto simp: parse_args_def main_def truthy_float_def tree_specified_def)

theorem configuration_error_before_sampling_witness:
  "main (spec_collaborators 3 4 []) (default_options ''raw'' ''aln'' ''out'') =
     [Exit ''Need one of the --tree-* options or --mcmc-sampling!''] \<and>
   main (spec_collaborators 3 4 []) star_without_rate =
     [Exit ''Need one of the --mutation-rate* options!'']"
proof -
  have h1: "(\<not> mcmc (default_options ''raw'' ''aln'' ''out'') \<and>
             \<not> tree_specified (default_options ''raw'' ''aln'' ''out'')) \<or>
            (tree_specified (default_options ''raw'' ''aln'' ''out'') \<and>
             mutation_rate (default_options ''raw'' ''aln'' ''out'') = 0 \<and>
             \<not> mutation_rate_neff (default_options ''raw'' ''aln'' ''out''))"
    by (simp add: default_options_def tree_specified_def truthy_str_def)
  have h2: "(\<not> mcmc star_without_rate \<and> \<not> tree_specified star_without_rate) \<or>
            (tree_specified star_without_rate \<and> mutation_rate star_without_rate = 0 \<and>
             \<not> mutation_rate_neff star_without_rate)"
    by (simp add: star_without_rate_def default_options_def tree_specified_def truthy_str_def)
  show ?thesis
    using configuration_error_before_sampling [OF h1, of "spec_collaborators 3 4 []"]
      configuration_error_before_sampling [OF h2, of "spec_collaborators 3 4 []"]
    by (auto simp: parse_args_def star_without_rate_def default_options_def truthy_str_def
        truthy_float_def)
qed

lemma zero_non_contacts_failure: "zero_non_contacts x idx = Inl e \<Longrightarrow> e = IndexError"
  by (auto simp: zero_non_contacts_def index_pairs_def split: sum.splits if_splits prod.splits)

lemma main_accepted:
  assumes "parse_args opt = Inr opt"
  shows "Sample (sampler_choice (Some (specify_tree env
            (if nseq opt = 0 then int (ccm_N env) else nseq opt) (tree_file opt) (tree_source opt))) opt)
           \<in> set (main env opt) \<or>
         Raise IndexError \<in> set (main env opt)"
proof (cases "if truthy_str (pdbfile opt)
                 then zero_non_contacts (ccm_x_pair env) (ccm_non_contact_indices env)
                 else Inr (ccm_x_pair env)")
  case (Inl e)
  then have "e = IndexError"
    by (auto dest: zero_non_contacts_failure split: if_splits)
  then show ?thesis using assms Inl by (simp add: main_def)
next
  case (Inr x_pair)
  then show ?thesis using assms by (simp add: main_def Let_def)
qed

text \<open>
  Claim C10, as amended. For every configuration that specifies a tree together
  with a strictly negative constant mutation rate (so that the Neff-matching
  option, which the parser does not allow beside it, is off), the validation
  accepts the configuration, and the dispatch passes both tree samplers by and
  calls the MCMC sampler with the sample count, the burn-in and the sample type
  of the MCMC options of that configuration; these are 10000 and 500 when
  \<open>--mcmc-nseq\<close> and \<open>--mcmc-burn-in\<close> are not given. In \<open>main\<close> that call is
  made unless zeroing the non-contacts raised before.
\<close>

theorem negative_rate_runs_mcmc:
  assumes "tree_specified opt" and "mutation_rate opt < 0" and "\<not> mutation_rate_neff opt"
  shows "parse_args opt = Inr opt \<and>
         sampler_choice tree opt =
           GenerateMcmcSample (mcmc_nseq opt) (mcmc_burn_in opt) (mcmc_sample_type opt) \<and>
         (Sample (GenerateMcmcSample (mcmc_nseq opt) (mcmc_burn_in opt) (mcmc_sample_type opt))
            \<in> set (main env opt) \<or> Raise IndexError \<in> set (main env opt)) \<and>
         mcmc_nseq (default_options raw aln out) = 10000 \<and>
         mcmc_burn_in (default_options raw aln out) = 500"
proof -
  have acc: "parse_args opt = Inr opt"
    using assms by (auto simp: parse_args_def truthy_float_def tree_specified_def)
  have choice: "sampler_choice tree' opt =
           GenerateMcmcSample (mcmc_nseq opt) (mcmc_burn_in opt) (mcmc_sample_type opt)" for tree' :: "'c option"
    using assms by (simp add: sampler_choice_def)
  show ?thesis
    using acc choice [of tree] main_accepted [OF acc, of env]
    by (simp add: choice default_options_def)
qed

theorem negative_rate_runs_mcmc_witness:
  "tree_specified star_negative_rate \<and> mutation_rate star_negative_rate < 0 \<and>
   parse_args star_negative_rate = Inr star_negative_rate \<and>
   sampler_choice (Some ()) star_negative_rate = GenerateMcmcSample 10000 500 ''original''"
proof -
  have h1: "tree_specified star_negative_rate"
    by (simp add: star_negative_rate_def default_options_def tree_specified_def truthy_str_def)
  have h2: "mutation_rate star_negative_rate < 0"
    by (simp add: star_negative_rate_def default_options_def)
  have h3: "\<not> mutation_rate_neff star_negative_rate"
    by (simp add: star_negative_rate_def default_options_def)
  have v: "mcmc_nseq star_negative_rate = 10000 \<and> mcmc_burn_in star_negative_rate = 500 \<and>
           mcmc_sample_type star_negative_rate = ''original''"
    by (simp add: star_negative_rate_def default_options_def)
  show ?thesis
    using negative_rate_runs_mcmc [OF h1 h2 h3, of "Some ()" "spec_collaborators 3 4 []"] h1 h2 v
    by simp
qed

text \<open>
  Claim C10 as stated fails: with \<open>--tree-binary --mutation-rate -1 --mcmc-nseq 5\<close>
  the configuration is accepted and the MCMC sampler is called for 5 sequences,
  not for the default 10000.
\<close>

theorem negative_rate_mcmc_defaults_counterexample:
  "tree_specified binary_negative_rate_nseq5 \<and>
   mutation_rate binary_negative_rate_nseq5 < 0 \<and>
   parse_args binary_negative_rate_nseq5 = Inr binary_negative_rate_nseq5 \<and>
   sampler_choice (Some ()) binary_negative_rate_nseq5 = GenerateMcmcSample 5 500 ''original'' \<and>
   mcmc_nseq (default_options ''raw'' ''aln'' ''out'') = 10000"
  by (simp add: binary_negative_rate_nseq5_def default_options_def tree_specified_def
      truthy_str_def truthy_float_def parse_args_def sampler_choice_def)

subsection \<open>The identifiers handed to the writer\<close>

text \<open>
  Claim C8. The list of identifiers handed to the writer should have one entry per
  row of the generated alignment. \<open>main\<close> hands over \<open>tree.ids\<close> whatever alignment
  was sampled; the list \<open>ids\<close>, which falls back to one name per row, is not used.
  When the MCMC sampler ran, the rows are as many as \<open>--mcmc-nseq\<close> says and the
  identifiers are those of the tree: for an input alignment of 3 rows and
  \<open>--tree-star --mutation-rate -1\<close>, the writer gets 10000 rows and the 3
  identifiers of the leaves.
\<close>

theorem writer_gets_tree_ids:
  "write_alignment env (Some t) msa_sampled =
     WriteMsa msa_sampled (tree_ids env t)
       (replicate (length msa_sampled) ''synthetic sequence generated with CCMgen'') \<and>
   (\<exists>msa descs.
      last (main (spec_collaborators 3 4 []) star_negative_rate) =
        WriteMsa msa [''0'', ''1'', ''2''] descs \<and>
      length msa = 10000)"
proof -
  have "\<exists>msa descs.
      last (main (spec_collaborators 3 4 []) star_negative_rate) =
        WriteMsa msa [''0'', ''1'', ''2''] descs \<and>
      length msa = 10000"
    by (simp add: star_negative_rate_def main_def parse_args_def sampler_choice_def
        truthy_float_def truthy_str_def default_options_def spec_collaborators_def
        run_sampler_def write_alignment_def upt_conv_Cons Let_def)
  then show ?thesis
    by (simp add: write_alignment_def Let_def)
qed

subsection \<open>Symmetry of the couplings\<close>

lemma wf_tensor_iff:
  "wf_tensor L A x \<longleftrightarrow>
     length x = L \<and>
     (\<forall>i<L. length (x ! i) = L \<and>
        (\<forall>j<L. length (x ! i ! j) = A \<and> (\<forall>a<A. length (x ! i ! j ! a) = A)))"
  by (auto simp: wf_tensor_def list_all_length)

lemma zero_block_nth:
  assumes "wf_tensor L A x" "i' < L" "j' < L" "i < L" "j < L" "a < A" "b < A"
  shows "zero_block (i', j') x ! i ! j ! a ! b = (if i = i' \<and> j = j' then 0 else x ! i ! j ! a ! b)"
  using assms by (auto simp: zero_block_def wf_tensor_iff nth_list_update)

lemma zero_block_wf:
  assumes "wf_tensor L A x" "i' < L" "j' < L"
  shows "wf_tensor L A (zero_block (i', j') x)"
  using assms by (auto simp: zero_block_def wf_tensor_iff nth_list_update)

lemma fold_zero_block:
  assumes "wf_tensor L A x" "\<And>p. p \<in> set ps \<Longrightarrow> fst p < L \<and> snd p < L"
  shows "wf_tensor L A (fold zero_block ps x) \<and>
         (\<forall>i<L. \<forall>j<L. \<forall>a<A. \<forall>b<A.
            fold zero_block ps x ! i ! j ! a ! b = (if (i, j) \<in> set ps then 0 else x ! i ! j ! a ! b))"
  using assms
proof (induction ps arbitrary: x)
  case Nil
  then show ?case by simp
next
  case (Cons p ps)
  obtain i' j' where p: "p = (i', j')" by (cases p)
  have r: "i' < L" "j' < L" using Cons.prems(2) [of p] p by auto
  have wf': "wf_tensor L A (zero_block p x)"
    using Cons.prems(1) r unfolding p by (rule zero_block_wf)
  have IH: "wf_tensor L A (fold zero_block ps (zero_block p x)) \<and>
         (\<forall>i<L. \<forall>j<L. \<forall>a<A. \<forall>b<A.
            fold zero_block ps (zero_block p x) ! i ! j ! a ! b =
              (if (i, j) \<in> set ps then 0 else zero_block p x ! i ! j ! a ! b))"
    using wf' Cons.prems(2) by (intro Cons.IH) auto
  show ?case
  proof (intro conjI allI impI)
    show "wf_tensor L A (fold zero_block (p # ps) x)" using IH by simp
  next
    fix i j a b assume "i < L" "j < L" "a < A" "b < A"
    then show "fold zero_block (p # ps) x ! i ! j ! a ! b =
                 (if (i, j) \<in> set (p # ps) then 0 else x ! i ! j ! a ! b)"
      using IH zero_block_nth [OF Cons.prems(1) r, of i j a b] by (auto simp: p)
  qed
qed

lemma fold_zero_block_wf:
  assumes "wf_tensor L A x" "\<And>p. p \<in> set ps \<Longrightarrow> fst p < L \<and> snd p < L"
  shows "wf_tensor L A (fold zero_block ps x)"
  using fold_zero_block [OF assms] by (rule conjunct1)

lemma fold_zero_block_nth:
  assumes "wf_tensor L A x" "\<And>p. p \<in> set ps \<Longrightarrow> fst p < L \<and> snd p < L"
    and "i < L" "j < L" "a < A" "b < A"
  shows "fold zero_block ps x ! i ! j ! a ! b = (if (i, j) \<in> set ps then 0 else x ! i ! j ! a ! b)"
proof -
  have "\<forall>i<L. \<forall>j<L. \<forall>a<A. \<forall>b<A.
            fold zero_block ps x ! i ! j ! a ! b = (if (i, j) \<in> set ps then 0 else x ! i ! j ! a ! b)"
    using fold_zero_block [OF assms(1,2)] by (rule conjunct2)
  then show ?thesis using assms(3-6) by blast
qed

lemma index_pairs_non_contacts:
  "index_pairs (non_contacts contact) =
     Inr (concat (map (\<lambda>i. map (\<lambda>j. (i, j)) (filter (\<lambda>j. \<not> contact ! i ! j) [0..<length (contact ! i)]))
                        [0..<length contact]))"
  by (simp add: index_pairs_def non_contacts_def Let_def zip_map_fst_snd)

lemma set_non_contact_pairs:
  "set (concat (map (\<lambda>i. map (\<lambda>j. (i, j)) (filter (\<lambda>j. \<not> contact ! i ! j) [0..<length (contact ! i)]))
                        [0..<length contact]))
   = {(i, j). i < length contact \<and> j < length (contact ! i) \<and> \<not> contact ! i ! j}"
  by auto

lemma wf_mask_iff: "wf_mask L contact \<longleftrightarrow> length contact = L \<and> (\<forall>i<L. length (contact ! i) = L)"
  by (auto simp: wf_mask_def list_all_length)

lemma wf_tensor_len0: "wf_tensor L A x \<Longrightarrow> length x = L"
  by (simp add: wf_tensor_iff)

lemma wf_tensor_len1: "wf_tensor L A x \<Longrightarrow> i < L \<Longrightarrow> length (x ! i) = L"
  by (simp add: wf_tensor_iff)

lemma zero_non_contacts_symmetric_mask:
  assumes x: "wf_tensor L A x" and sym: "symmetric_pair L A x"
    and m: "wf_mask L contact" and msym: "symmetric_mask L contact"
  shows "\<exists>y. zero_non_contacts x (non_contacts contact) = Inr y \<and> wf_tensor L A y \<and>
              symmetric_pair L A y \<and> (zero_self_coupling L A x \<longrightarrow> zero_self_coupling L A y)"
proof -
  define ps where "ps = concat (map (\<lambda>i. map (\<lambda>j. (i, j)) (filter (\<lambda>j. \<not> contact ! i ! j) [0..<length (contact ! i)]))
                        [0..<length contact])"
  have ip: "index_pairs (non_contacts contact) = Inr ps"
    unfolding ps_def by (rule index_pairs_non_contacts)
  have len: "length contact = L" and len': "\<And>i. i < L \<Longrightarrow> length (contact ! i) = L"
    using m by (simp_all add: wf_mask_iff)
  have set_ps: "set ps = {(i, j). i < L \<and> j < L \<and> \<not> contact ! i ! j}"
    unfolding ps_def set_non_contact_pairs using len len' by auto
  have range: "fst p < L \<and> snd p < L" if "p \<in> set ps" for p
    using that unfolding set_ps by auto
  have ok: "list_all (\<lambda>(i, j). i < length x \<and> j < length (x ! i)) ps"
    unfolding list_all_iff
  proof
    fix p assume "p \<in> set ps"
    then have "fst p < L" "snd p < L" using range by auto
    then have "fst p < length x \<and> snd p < length (x ! fst p)"
      using x by (simp add: wf_tensor_len0 wf_tensor_len1)
    then show "case p of (i, j) \<Rightarrow> i < length x \<and> j < length (x ! i)"
      by (simp add: case_prod_beta)
  qed
  have res: "zero_non_contacts x (non_contacts contact) = Inr (fold zero_block ps x)"
    using ip ok by (simp add: zero_non_contacts_def)
  have wf': "wf_tensor L A (fold zero_block ps x)"
    using x range by (rule fold_zero_block_wf)
  have swap: "(i, j) \<in> set ps \<longleftrightarrow> (j, i) \<in> set ps" if "i < L" "j < L" for i j
  proof -
    have "contact ! i ! j = contact ! j ! i"
      using that msym by (simp add: symmetric_mask_def)
    then show ?thesis using that unfolding set_ps by simp
  qed
  have "symmetric_pair L A (fold zero_block ps x)"
    unfolding symmetric_pair_def
  proof (intro ballI)
    fix i j a b assume "i \<in> {0..<L}" "j \<in> {0..<L}" "a \<in> {0..<A}" "b \<in> {0..<A}"
    then have b: "i < L" "j < L" "a < A" "b < A" by auto
    have "fold zero_block ps x ! i ! j ! a ! b = (if (i, j) \<in> set ps then 0 else x ! i ! j ! a ! b)"
      using x range b by (rule fold_zero_block_nth)
    moreover have "fold zero_block ps x ! j ! i ! b ! a = (if (j, i) \<in> set ps then 0 else x ! j ! i ! b ! a)"
      using x range b(2,1,4,3) by (rule fold_zero_block_nth)
    moreover have "x ! i ! j ! a ! b = x ! j ! i ! b ! a"
      using sym b by (simp add: symmetric_pair_def)
    ultimately show "fold zero_block ps x ! i ! j ! a ! b = fold zero_block ps x ! j ! i ! b ! a"
      using swap [OF b(1,2)] by simp
  qed
  moreover have "zero_self_coupling L A (fold zero_block ps x)" if z: "zero_self_coupling L A x"
    unfolding zero_self_coupling_def
  proof (intro ballI)
    fix i a b assume "i \<in> {0..<L}" "a \<in> {0..<A}" "b \<in> {0..<A}"
    then have b: "i < L" "a < A" "b < A" by auto
    have "fold zero_block ps x ! i ! i ! a ! b = (if (i, i) \<in> set ps then 0 else x ! i ! i ! a ! b)"
      using x range b(1,1,2,3) by (rule fold_zero_block_nth)
    moreover have "x ! i ! i ! a ! b = 0"
      using z b by (simp add: zero_self_coupling_def)
    ultimately show "fold zero_block ps x ! i ! i ! a ! b = 0" by simp
  qed
  ultimately show ?thesis using res wf' by simp
qed


lemma cbeta_distance_commute: "cbeta_distance p q = cbeta_distance q p"
  by (cases p, cases q) (simp add: cbeta_distance_def power2_commute)

lemma contact_mask_nth:
  assumes "i < length residues" "j < length residues"
  shows "contact_mask (distance_map residues) threshold ! i ! j =
         (\<not> cbeta_distance (residues ! i) (residues ! j) > real_of_int threshold)"
  using assms by (simp add: contact_mask_def distance_map_def)

lemma contact_mask_wf: "wf_mask (length residues) (contact_mask (distance_map residues) threshold)"
  by (simp add: wf_mask_def contact_mask_def distance_map_def list_all_iff)

lemma contact_mask_symmetric:
  "symmetric_mask (length residues) (contact_mask (distance_map residues) threshold)"
  unfolding symmetric_mask_def
proof (intro ballI)
  fix i j assume "i \<in> {0..<length residues}" "j \<in> {0..<length residues}"
  then have "i < length residues" "j < length residues" by auto
  then show "contact_mask (distance_map residues) threshold ! i ! j =
             contact_mask (distance_map residues) threshold ! j ! i"
    by (simp add: contact_mask_nth cbeta_distance_commute [of "residues ! i"])
qed

text \<open>
  Claim C7. For every symmetric coupling tensor of shape \<open>(L, L, A, A)\<close> and every
  contact mask, that is, for every structure of \<open>L\<close> residues and every contact
  threshold, zeroing the couplings of the non-contact pairs succeeds and keeps the
  shape and the symmetry \<open>pair[i,j,a,b] == pair[j,i,b,a]\<close>; a zero self-coupling
  stays zero.
\<close>

theorem zero_non_contacts_keeps_symmetry:
  assumes "wf_tensor L A x" and "symmetric_pair L A x" and "length residues = L"
  shows "\<exists>y. zero_non_contacts x
                (non_contacts (contact_mask (distance_map residues) threshold)) = Inr y \<and>
              wf_tensor L A y \<and> symmetric_pair L A y \<and>
              (zero_self_coupling L A x \<longrightarrow> zero_self_coupling L A y)"
proof -
  have "wf_mask L (contact_mask (distance_map residues) threshold)"
    using contact_mask_wf [of residues threshold] assms(3) by simp
  moreover have "symmetric_mask L (contact_mask (distance_map residues) threshold)"
    using contact_mask_symmetric [of residues threshold] assms(3) by simp
  ultimately show ?thesis
    using assms(1,2) by (intro zero_non_contacts_symmetric_mask)
qed

lemma interval_2: "{0..<2::nat} = {0, 1}"
  by auto

lemma interval_1: "{0..<1::nat} = {0}"
  by auto

lemma sqrt_100: "sqrt 100 = 10"
  by (rule real_sqrt_unique) simp_all

theorem zero_non_contacts_keeps_symmetry_witness:
  "wf_tensor 2 1 couplings_2x2 \<and> symmetric_pair 2 1 couplings_2x2 \<and>
   length two_residues = 2 \<and> zero_self_coupling 2 1 couplings_2x2 \<and>
   contact_mask (distance_map two_residues) 8 = [[True, False], [False, True]] \<and>
   zero_non_contacts couplings_2x2 (non_contacts (contact_mask (distance_map two_residues) 8)) =
     Inr [[[[0]], [[0]]], [[[0]], [[0]]]] \<and>
   (\<exists>y. zero_non_contacts couplings_2x2
          (non_contacts (contact_mask (distance_map two_residues) 8)) = Inr y \<and>
        wf_tensor 2 1 y \<and> symmetric_pair 2 1 y \<and> zero_self_coupling 2 1 y)"
proof -
  have h1: "wf_tensor 2 1 couplings_2x2"
    by (simp add: couplings_2x2_def wf_tensor_def)
  have h2: "symmetric_pair 2 1 couplings_2x2"
    by (simp add: couplings_2x2_def symmetric_pair_def interval_2 interval_1)
  have h3: "length two_residues = 2"
    by (simp add: two_residues_def)
  have h4: "zero_self_coupling 2 1 couplings_2x2"
    by (simp add: couplings_2x2_def zero_self_coupling_def interval_2 interval_1)
  have m: "contact_mask (distance_map two_residues) 8 = [[True, False], [False, True]]"
    by (simp add: contact_mask_def distance_map_def two_residues_def cbeta_distance_def sqrt_100)
  have v: "zero_non_contacts couplings_2x2 (non_contacts [[True, False], [False, True]]) =
     Inr [[[[0]], [[0]]], [[[0]], [[0]]]]"
    by (simp add: couplings_2x2_def zero_non_contacts_def non_contacts_def index_pairs_def
        zero_block_def upt_conv_Cons Let_def)
  show ?thesis
    using zero_non_contacts_keeps_symmetry [OF h1 h2 h3, of 8] h1 h2 h3 h4 m v by auto
qed

end
